theory Spec2Isabelle
  imports Main
begin

section \<open>Python values\<close>

text \<open>
  A Python \<open>str\<close> is a sequence of Unicode code points, and indexing and slicing count
  code points.  A character is therefore a natural number (its code point) and a string
  a list of them; \<open>S\<close> turns an ASCII literal into such a string.  The status table
  holds one character outside ASCII, the arrow U+2192 (code point 8594).
\<close>

type_synonym pychar = nat
type_synonym str = "pychar list"

definition S :: "string \<Rightarrow> str" where
  "S s = map of_char s"

text \<open>The exceptions that the modelled code and the library calls it makes can raise.\<close>

datatype error = IndexError | KeyError | ValueError | OSError
  | UnicodeDecodeError | CalledProcessError

text \<open>\<open>xs[i]\<close> for a non-negative index: out of range raises \<open>IndexError\<close>.\<close>

definition getitem :: "'a list \<Rightarrow> nat \<Rightarrow> error + 'a" where
  "getitem xs i = (if i < length xs then Inr (xs ! i) else Inl IndexError)"

text \<open>\<open>d[k]\<close> on a dictionary: a missing key raises \<open>KeyError\<close>.\<close>

definition dict_get :: "('k \<rightharpoonup> 'v) \<Rightarrow> 'k \<Rightarrow> error + 'v" where
  "dict_get d k = (case d k of None \<Rightarrow> Inl KeyError | Some v \<Rightarrow> Inr v)"

text \<open>\<open>s.ljust(n)\<close>: pad with spaces on the right up to \<open>n\<close> characters.\<close>

definition ljust :: "nat \<Rightarrow> str \<Rightarrow> str" where
  "ljust n s = s @ replicate (n - length s) 32"

text \<open>
  \<open>s.split(sep)\<close> for a one-character separator: the pieces between the separators,
  so that a string without separator gives one piece and a trailing separator gives a
  final empty piece.
\<close>

fun split :: "str \<Rightarrow> pychar \<Rightarrow> str list" where
  "split [] sep = [[]]"
| "split (c # cs) sep =
     (if c = sep then [] # split cs sep
      else (case split cs sep of
              [] \<Rightarrow> [[c]]
            | w # ws \<Rightarrow> (c # w) # ws))"

text \<open>
  What \<open>\s\<close> matches in a \<open>str\<close> pattern: the ASCII white space and the other
  code points that Python counts as white space.
\<close>

definition isspace :: "pychar \<Rightarrow> bool" where
  "isspace c \<longleftrightarrow>
     (9 \<le> c \<and> c \<le> 13) \<or> (28 \<le> c \<and> c \<le> 32) \<or> c = 133 \<or> c = 160 \<or> c = 5760
     \<or> (8192 \<le> c \<and> c \<le> 8202) \<or> c = 8232 \<or> c = 8233 \<or> c = 8239 \<or> c = 8287
     \<or> c = 12288"

section \<open>\<open>os.path\<close> on POSIX\<close>

text \<open>\<open>os.path.join(a, b)\<close>: an absolute \<open>b\<close> replaces \<open>a\<close>.\<close>

definition join :: "str \<Rightarrow> str \<Rightarrow> str" where
  "join a b =
     (if b \<noteq> [] \<and> hd b = 47 then b
      else if a = [] \<or> last a = 47 then a @ b
      else a @ [47] @ b)"

text \<open>\<open>os.path.join(a, *p)\<close> on a list of one path or more.\<close>

definition join_all :: "str list \<Rightarrow> str" where
  "join_all ps = foldl join (hd ps) (tl ps)"

text \<open>\<open>s.startswith(t)\<close>, \<open>s.rfind(c)\<close> (\<open>-1\<close> when absent) and \<open>s.rstrip(c)\<close>.\<close>

definition startswith :: "str \<Rightarrow> str \<Rightarrow> bool" where
  "startswith s t \<longleftrightarrow> take (length t) s = t"

definition rfind :: "str \<Rightarrow> pychar \<Rightarrow> int" where
  "rfind s c =
     (if c \<in> set s
      then int (length s) - 1 - int (length (takeWhile (\<lambda>x. x \<noteq> c) (rev s)))
      else - 1)"

definition rstrip :: "str \<Rightarrow> pychar \<Rightarrow> str" where
  "rstrip s c = rev (dropWhile (\<lambda>x. x = c) (rev s))"

text \<open>\<open>sep.join(xs)\<close> on a list of strings.\<close>

fun str_join :: "str \<Rightarrow> str list \<Rightarrow> str" where
  "str_join sep [] = []"
| "str_join sep [x] = x"
| "str_join sep (x # y # zs) = x @ sep @ str_join sep (y # zs)"

definition isabs :: "str \<Rightarrow> bool" where
  "isabs s \<longleftrightarrow> startswith s (S ''/'')"

text \<open>
  \<open>os.path.dirname(p)\<close>: everything up to the last slash, without the slashes at its
  end unless it consists of slashes only.
\<close>

definition dirname :: "str \<Rightarrow> str" where
  "dirname p =
     (let i = nat (rfind p 47 + 1);
          head = take i p
      in if head \<noteq> [] \<and> head \<noteq> replicate (length head) 47 then rstrip head 47 else head)"

text \<open>
  \<open>os.path.normpath(path)\<close>: the loop over the components, then the function.  Two
  leading slashes are kept, three or more become one.
\<close>

fun normpath_loop :: "nat \<Rightarrow> str list \<Rightarrow> str list \<Rightarrow> str list" where
  "normpath_loop initial_slashes [] new_comps = new_comps"
| "normpath_loop initial_slashes (c # comps) new_comps =
     (if c = [] \<or> c = S ''.'' then normpath_loop initial_slashes comps new_comps
      else if c \<noteq> S ''..'' \<or> (initial_slashes = 0 \<and> new_comps = [])
              \<or> (new_comps \<noteq> [] \<and> last new_comps = S ''..'')
      then normpath_loop initial_slashes comps (new_comps @ [c])
      else if new_comps \<noteq> [] then normpath_loop initial_slashes comps (butlast new_comps)
      else normpath_loop initial_slashes comps new_comps)"

definition normpath :: "str \<Rightarrow> str" where
  "normpath path =
     (if path = [] then S ''.''
      else
        let initial_slashes =
              (if startswith path (S ''/'')
               then (if startswith path (S ''//'') \<and> \<not> startswith path (S ''///'')
                     then 2 else 1)
               else 0);
            comps = normpath_loop initial_slashes (split path 47) [];
            joined = str_join (S ''/'') comps;
            result = (if initial_slashes \<noteq> 0 then replicate initial_slashes 47 @ joined
                      else joined)
        in if result = [] then S ''.'' else result)"

text \<open>
  \<open>os.path.abspath(path)\<close>; the first argument is what \<open>os.getcwd()\<close> returns.
\<close>

definition abspath :: "str \<Rightarrow> str \<Rightarrow> str" where
  "abspath getcwd path =
     (if \<not> isabs path then normpath (join getcwd path) else normpath path)"

text \<open>
  \<open>os.path.commonprefix\<close> on two lists of components: their longest common prefix
  (the library takes the least and the greatest of the lists and compares those two
  element by element, which is the same for two lists).
\<close>

fun commonprefix :: "'a list \<Rightarrow> 'a list \<Rightarrow> 'a list" where
  "commonprefix (x # xs) (y # ys) = (if x = y then x # commonprefix xs ys else [])"
| "commonprefix xs ys = []"

text \<open>
  \<open>os.path.relpath(path, start)\<close>: an empty \<open>path\<close> raises \<open>ValueError\<close>.
\<close>

definition relpath :: "str \<Rightarrow> str \<Rightarrow> str \<Rightarrow> error + str" where
  "relpath getcwd path start =
     (if path = [] then Inl ValueError
      else
        let start_list = filter (\<lambda>x. x \<noteq> []) (split (abspath getcwd start) 47);
            path_list = filter (\<lambda>x. x \<noteq> []) (split (abspath getcwd path) 47);
            i = length (commonprefix start_list path_list);
            rel_list = replicate (length start_list - i) (S ''..'') @ drop i path_list
        in if rel_list = [] then Inr (S ''.'') else Inr (join_all rel_list))"

section \<open>\<open>shlex.split\<close>\<close>

text \<open>
  \<open>shlex.split(s)\<close>: the POSIX mode of the \<open>shlex\<close> lexer with \<open>whitespace_split\<close>
  set and no comment characters.  The lexer is a state machine whose state is a
  character: a space between tokens, \<open>a\<close> inside a word, the quote inside a quoted
  part, the backslash after an escape.  \<open>shlex_read\<close> follows \<open>read_token\<close> character
  by character and collects the tokens that the iteration over the lexer yields; the
  end of the input inside a quoted part or after a backslash raises \<open>ValueError\<close>.
  A character that starts a word does so whether or not it is a word character, since
  \<open>whitespace_split\<close> is set.
\<close>

definition whitespace :: str where
  "whitespace = [32, 9, 13, 10]"

definition quotes :: str where
  "quotes = [39, 34]"

definition escape :: str where
  "escape = [92]"

definition escapedquotes :: str where
  "escapedquotes = [34]"

definition emit :: "str \<Rightarrow> error + str list \<Rightarrow> error + str list" where
  "emit token r = (case r of Inl e \<Rightarrow> Inl e | Inr tokens \<Rightarrow> Inr (token # tokens))"

fun shlex_read :: "pychar \<Rightarrow> pychar \<Rightarrow> bool \<Rightarrow> str \<Rightarrow> str \<Rightarrow> error + str list" where
  "shlex_read state escapedstate quoted token [] =
     (if state \<in> set quotes \<or> state \<in> set escape then Inl ValueError
      else if token \<noteq> [] \<or> quoted then Inr [token]
      else Inr [])"
| "shlex_read state escapedstate quoted token (nextchar # rest) =
     (if state = 32 then
        (if nextchar \<in> set whitespace then
           (if token \<noteq> [] \<or> quoted then emit token (shlex_read 32 32 False [] rest)
            else shlex_read 32 escapedstate quoted token rest)
         else if nextchar \<in> set escape then shlex_read nextchar 97 quoted token rest
         else if nextchar \<in> set quotes then shlex_read nextchar escapedstate quoted token rest
         else shlex_read 97 escapedstate quoted [nextchar] rest)
      else if state \<in> set quotes then
        (if nextchar = state then shlex_read 97 escapedstate True token rest
         else if nextchar \<in> set escape \<and> state \<in> set escapedquotes
         then shlex_read nextchar state True token rest
         else shlex_read state escapedstate True (token @ [nextchar]) rest)
      else if state \<in> set escape then
        (let token' = (if escapedstate \<in> set quotes \<and> nextchar \<noteq> state
                          \<and> nextchar \<noteq> escapedstate
                       then token @ [state] else token)
         in shlex_read escapedstate escapedstate quoted (token' @ [nextchar]) rest)
      else
        (if nextchar \<in> set whitespace then
           (if token \<noteq> [] \<or> quoted then emit token (shlex_read 32 32 False [] rest)
            else shlex_read 32 escapedstate quoted token rest)
         else if nextchar \<in> set quotes then shlex_read nextchar escapedstate quoted token rest
         else if nextchar \<in> set escape then shlex_read nextchar 97 quoted token rest
         else shlex_read 97 escapedstate quoted (token @ [nextchar]) rest))"

definition shlex_split :: "str \<Rightarrow> error + str list" where
  "shlex_split s = shlex_read 32 32 False [] s"

section \<open>The status table and the line parser\<close>

text \<open>\<open>EMPTY_LINE = re.compile(r"^\s*$")\<close>, used through \<open>fullmatch\<close>.\<close>

definition EMPTY_LINE_fullmatch :: "str \<Rightarrow> bool" where
  "EMPTY_LINE_fullmatch line = list_all isspace line"

definition STATUS_MAP :: "pychar \<rightharpoonup> str \<times> str" where
  "STATUS_MAP = map_of
     [(of_char CHR '' '', (S '' '', S '''')),
      (of_char CHR ''M'', (S ''~'', S ''modified'')),
      (of_char CHR ''A'', (S ''+'', S ''added'')),
      (of_char CHR ''D'', (S ''-'', S ''deleted'')),
      (of_char CHR ''R'', ([8594], S ''renamed'')),
      (of_char CHR ''C'', (S ''C'', S ''copied'')),
      (of_char CHR ''U'', (S ''U'', S ''updated'')),
      (of_char CHR ''?'', (S ''?'', S ''untracked''))]"

record candidate =
  word :: str
  action__path :: str
  source__root :: str
  source__staged :: bool
  source__tree :: bool

text \<open>
  \<open>_parse_line\<close>.  The slice \<open>line[3:]\<close> never raises; the two index reads and the
  two table lookups do, in the order of the source.
\<close>

definition parse_line :: "str \<Rightarrow> str \<Rightarrow> error + candidate" where
  "parse_line line root =
     (let path = join root (drop 3 line) in
      (case getitem line 0 of Inl e \<Rightarrow> Inl e | Inr c0 \<Rightarrow>
      (case dict_get STATUS_MAP c0 of Inl e \<Rightarrow> Inl e | Inr (index_symbol, index_desc) \<Rightarrow>
      (case getitem line 1 of Inl e \<Rightarrow> Inl e | Inr c1 \<Rightarrow>
      (case dict_get STATUS_MAP c1 of Inl e \<Rightarrow> Inl e | Inr (tree_symbol, tree_desc0) \<Rightarrow>
      (let tree_desc = (if tree_desc0 = index_desc then [] else tree_desc0);
           word = index_symbol @ tree_symbol @ S '' '' @ ljust 12 index_desc @ S '' ''
                  @ ljust 12 tree_desc @ S '' '' @ drop 3 line
       in Inr \<lparr> word = word,
                action__path = path,
                source__root = root,
                source__staged = (index_symbol \<notin> set [S '' '', S ''?'']),
                source__tree = (tree_symbol \<notin> set [S '' '', S ''?'']) \<rparr>))))))"

section \<open>Running a command\<close>

text \<open>
  What the operating system does with one \<open>subprocess.run\<close> call: the program cannot
  be started, or it runs to its end with a return code and the bytes it wrote to the
  merged stdout and stderr.  The bytes are kept as the result of decoding them as UTF-8:
  \<open>None\<close> when they are not valid UTF-8.
\<close>

datatype proc_outcome = SpawnFailed | Exited int "str option"

record completed_process =
  returncode :: int
  stdout :: "str option"

text \<open>
  \<open>subprocess.run(..., check=check)\<close>: a program that cannot be started raises
  \<open>OSError\<close>; \<open>CalledProcessError\<close> is raised only when \<open>check\<close> is true and the
  return code is not zero.
\<close>

definition subprocess_run :: "bool \<Rightarrow> proc_outcome \<Rightarrow> error + completed_process" where
  "subprocess_run check out =
     (case out of
        SpawnFailed \<Rightarrow> Inl OSError
      | Exited rc bytes \<Rightarrow>
          if check \<and> rc \<noteq> 0 then Inl CalledProcessError
          else Inr \<lparr> returncode = rc, stdout = bytes \<rparr>)"

text \<open>
  \<open>run_command\<close>.  The first argument is the operating system: the outcome of running
  an argument vector in a directory.  The call passes no \<open>check\<close>, so it is false.
\<close>

definition run_command :: "(str list \<Rightarrow> str \<Rightarrow> proc_outcome) \<Rightarrow> str list \<Rightarrow> str \<Rightarrow> error + str list" where
  "run_command os commands cwd =
     (case subprocess_run False (os commands cwd) of
        Inl e \<Rightarrow> (if e = CalledProcessError then Inr [] else Inl e)
      | Inr p \<Rightarrow>
          (case stdout p of
             None \<Rightarrow> Inl UnicodeDecodeError
           | Some text \<Rightarrow> Inr (split text 10)))"

section \<open>Listing the candidates\<close>

text \<open>The loop of \<open>gather_candidates\<close> over the lines, with the list it appends to.\<close>

fun candidates_loop :: "str \<Rightarrow> str list \<Rightarrow> candidate list \<Rightarrow> error + candidate list" where
  "candidates_loop root [] candidates = Inr candidates"
| "candidates_loop root (line # lines) candidates =
     (if EMPTY_LINE_fullmatch line then candidates_loop root lines candidates
      else (case parse_line line root of
              Inl e \<Rightarrow> Inl e
            | Inr c \<Rightarrow> candidates_loop root lines (candidates @ [c])))"

text \<open>
  \<open>gather_candidates\<close>, on the root that \<open>on_init\<close> stored in the context.  \<open>not root\<close>
  holds for \<open>None\<close> and for the empty string.  The message printed before the command
  runs goes to the editor and has no part in the result.
\<close>

definition gather_candidates :: "(str list \<Rightarrow> str \<Rightarrow> proc_outcome) \<Rightarrow> str option \<Rightarrow> error + candidate list" where
  "gather_candidates os ctx_root =
     (case ctx_root of
        None \<Rightarrow> Inr []
      | Some root \<Rightarrow>
          if root = [] then Inr []
          else (let args = [S ''git'', S ''status'', S ''--porcelain'', S ''-uall''] in
                case run_command os args root of
                  Inl e \<Rightarrow> Inl e
                | Inr lines \<Rightarrow> candidates_loop root lines []))"

section \<open>Finding the repository root\<close>

text \<open>
  The file system as \<open>_find_root\<close> sees it: which paths \<open>os.path.ismount\<close> reports
  as mount points and which \<open>os.path.isdir\<close> reports as directories.
\<close>

record filesystem =
  ismount :: "str \<Rightarrow> bool"
  isdir :: "str \<Rightarrow> bool"

text \<open>
  \<open>_find_root\<close>.  The loop has no bound of its own, so the function is partial:
  \<open>None\<close> stands for a walk that never returns, \<open>Some None\<close> for the result \<open>None\<close>
  and \<open>Some (Some p)\<close> for the root \<open>p\<close>.
\<close>

partial_function (option) find_root :: "filesystem \<Rightarrow> str \<Rightarrow> str option option" where
  "find_root fs path =
     (if path = S ''/'' \<or> ismount fs path then Some None
      else (let p = join path (S ''.git'') in
            if isdir fs p then Some (Some path)
            else find_root fs (dirname path)))"

text \<open>\<open>on_init\<close>: the root for the editor's working directory.\<close>

definition on_init :: "filesystem \<Rightarrow> str \<Rightarrow> str option option" where
  "on_init fs vim_getcwd = (let cwd = normpath vim_getcwd in find_root fs cwd)"

section \<open>The actions\<close>

text \<open>
  What an action does to the world, in the order it does it: a subprocess started with
  an argument vector in a directory, an editor command, an editor function called with
  arguments, a prompt shown to the user with its initial text.
\<close>

datatype effect =
    Run "str list" str
  | VimCommand str
  | VimCall str "str list"
  | Input str str

text \<open>
  The host of an action.  What the user types at a prompt and what a subprocess does
  may depend on everything that happened before, so both take the effects so far.
  \<open>getcwd\<close> is the working directory of the Python process and \<open>expand_dir\<close> the value
  of the editor expression \<open>expand("%:p:h")\<close>.  Editor calls are taken not to raise.
\<close>

record host =
  user_input :: "effect list \<Rightarrow> str"
  os_run :: "effect list \<Rightarrow> str list \<Rightarrow> str \<Rightarrow> proc_outcome"
  getcwd :: str
  expand_dir :: str

text \<open>
  An action returns the effects so far and the exception that ended it, if one did.
\<close>

type_synonym outcome = "effect list \<times> error option"

text \<open>\<open>run_command(argv, cwd)\<close> as a statement: the result is dropped.\<close>

definition run :: "host \<Rightarrow> str list \<Rightarrow> str \<Rightarrow> effect list \<Rightarrow> outcome" where
  "run h argv cwd tr =
     (case run_command (os_run h tr) argv cwd of
        Inl e \<Rightarrow> (tr @ [Run argv cwd], Some e)
      | Inr lines \<Rightarrow> (tr @ [Run argv cwd], None))"

text \<open>\<open>run_command(shlex.split(args), root)\<close>.\<close>

definition shlex_run :: "host \<Rightarrow> str \<Rightarrow> str \<Rightarrow> effect list \<Rightarrow> outcome" where
  "shlex_run h args root tr =
     (case shlex_split args of
        Inl e \<Rightarrow> (tr, Some e)
      | Inr argv \<Rightarrow> run h argv root tr)"

text \<open>
  The object of \<open>Kind\<close>: the way to remove a file, chosen once in \<open>__init__\<close> from
  what the editor answers to \<open>exists(':Rm')\<close> and \<open>executable('rmtrash')\<close>.
\<close>

record kind =
  remove :: str

definition kind_init :: "int \<Rightarrow> int \<Rightarrow> kind" where
  "kind_init exists_Rm executable_rmtrash =
     (if exists_Rm = 2 then \<lparr> remove = S ''rm'' \<rparr>
      else if executable_rmtrash \<noteq> 0 then \<lparr> remove = S ''rmtrash'' \<rparr>
      else \<lparr> remove = S ''delete'' \<rparr>)"

text \<open>
  The loop that \<open>action_patch\<close> and \<open>action_add\<close> share: each target's path relative
  to \<open>root\<close> is appended to \<open>args\<close>.
\<close>

fun relpath_args :: "host \<Rightarrow> str \<Rightarrow> candidate list \<Rightarrow> str list \<Rightarrow> error + str list" where
  "relpath_args h root [] args = Inr args"
| "relpath_args h root (target # targets) args =
     (let filepath = action__path target in
      case relpath (getcwd h) filepath root of
        Inl e \<Rightarrow> Inl e
      | Inr p \<Rightarrow> relpath_args h root targets (args @ [p]))"

text \<open>\<open>action_patch\<close>: the command is a string handed to the editor's terminal.\<close>

definition action_patch :: "host \<Rightarrow> candidate list \<Rightarrow> effect list \<Rightarrow> outcome" where
  "action_patch h targets tr =
     (case getitem targets 0 of
        Inl e \<Rightarrow> (tr, Some e)
      | Inr target0 \<Rightarrow>
          (let root = source__root target0 in
           case relpath_args h root targets [] of
             Inl e \<Rightarrow> (tr, Some e)
           | Inr args \<Rightarrow>
               (tr @ [VimCommand (S ''terminal git add '' @ str_join (S '' '') args
                                   @ S '' --patch'')], None)))"

text \<open>\<open>action_add\<close>.\<close>

definition action_add :: "host \<Rightarrow> candidate list \<Rightarrow> effect list \<Rightarrow> outcome" where
  "action_add h targets tr =
     (case getitem targets 0 of
        Inl e \<Rightarrow> (tr, Some e)
      | Inr target0 \<Rightarrow>
          (let root = source__root target0 in
           case relpath_args h root targets [S ''git'', S ''add''] of
             Inl e \<Rightarrow> (tr, Some e)
           | Inr args \<Rightarrow> run h args root tr))"

text \<open>
  The body of the loop of \<open>action_reset\<close> for one target, up to the \<open>checktime\<close>
  command that ends it when nothing was raised.
\<close>

definition checktime :: "outcome \<Rightarrow> outcome" where
  "checktime r =
     (case r of
        (tr, Some e) \<Rightarrow> (tr, Some e)
      | (tr, None) \<Rightarrow> (tr @ [VimCommand (S ''checktime'')], None))"

definition reset_target :: "kind \<Rightarrow> host \<Rightarrow> str \<Rightarrow> candidate \<Rightarrow> effect list \<Rightarrow> outcome" where
  "reset_target k h cwd target tr =
     (let filepath = action__path target;
          root = source__root target
      in case relpath (getcwd h) filepath root of
           Inl e \<Rightarrow> (tr, Some e)
         | Inr path \<Rightarrow>
             checktime
              (if source__tree target \<and> source__staged target then
                 (let tr1 = tr @ [Input (S ''Select action reset or checkout [r/c]'') []];
                      res = user_input h tr1
                  in if res = S ''c'' then shlex_run h (S ''git checkout -- '' @ path) root tr1
                     else if res = S ''r'' then shlex_run h (S ''git reset HEAD -- '' @ path) root tr1
                     else (tr1, None))
               else if source__tree target then
                 shlex_run h (S ''git checkout -- '' @ path) root tr
               else if source__staged target then
                 shlex_run h (S ''git reset HEAD -- '' @ path) root tr
               else
                 (if remove k = S ''rm'' then
                    (case relpath (getcwd h) filepath cwd of
                       Inl e \<Rightarrow> (tr, Some e)
                     | Inr p \<Rightarrow> (tr @ [VimCommand (S ''Rm '' @ p)], None))
                  else if remove k = S ''rmtrash'' then
                    run h [S ''rmtrash'', filepath] root tr
                  else (tr @ [VimCall (S ''delete'') [filepath]], None))))"

fun reset_loop :: "kind \<Rightarrow> host \<Rightarrow> str \<Rightarrow> candidate list \<Rightarrow> effect list \<Rightarrow> outcome" where
  "reset_loop k h cwd [] tr = (tr, None)"
| "reset_loop k h cwd (target # targets) tr =
     (case reset_target k h cwd target tr of
        (tr', Some e) \<Rightarrow> (tr', Some e)
      | (tr', None) \<Rightarrow> reset_loop k h cwd targets tr')"

text \<open>\<open>action_reset\<close>.\<close>

definition action_reset :: "kind \<Rightarrow> host \<Rightarrow> candidate list \<Rightarrow> effect list \<Rightarrow> outcome" where
  "action_reset k h targets tr =
     (let cwd = normpath (expand_dir h) in reset_loop k h cwd targets tr)"

section \<open>The decision table of the reset action, as the specification words it\<close>

text \<open>
  The specification gives the choice for one target as a table over the two flags:
  both set, ask the user; staged only, reset; modified in the tree only, checkout;
  neither, delete.
\<close>

datatype reset_choice = AskUser | Reset | Checkout | Delete

definition spec_reset_choice :: "bool \<Rightarrow> bool \<Rightarrow> reset_choice" where
  "spec_reset_choice staged modifiedInTree =
     (if staged \<and> modifiedInTree then AskUser
      else if staged then Reset
      else if modifiedInTree then Checkout
      else Delete)"

text \<open>
  A string that the shell lexer reads as it stands: no white space, no quote and no
  backslash in it.
\<close>

definition shell_plain :: "str \<Rightarrow> bool" where
  "shell_plain s \<longleftrightarrow>
     list_all (\<lambda>c. c \<notin> set whitespace \<and> c \<notin> set quotes \<and> c \<notin> set escape) s"

section \<open>Properties of the parser and of the listing\<close>

lemma STATUS_MAP_symbol:
  "STATUS_MAP c = Some (smb, desc) \<Longrightarrow>
     (smb \<notin> set [S '' '', S ''?'']) = (c \<noteq> 32 \<and> c \<noteq> 63)"
  by (auto simp: STATUS_MAP_def S_def split: if_splits)

lemma parse_line_isl:
  "isl (parse_line line root) \<longleftrightarrow>
     length line < 2 \<or> STATUS_MAP (line ! 0) = None \<or> STATUS_MAP (line ! 1) = None"
  by (auto simp: parse_line_def getitem_def dict_get_def Let_def
           split: option.splits sum.splits prod.splits)

lemma candidates_loop_filter:
  "candidates_loop root lines acc
     = candidates_loop root (filter (\<lambda>l. \<not> EMPTY_LINE_fullmatch l) lines) acc"
  by (induction lines arbitrary: acc) (auto split: sum.splits)

lemma candidates_loop_Inr:
  "candidates_loop root lines acc = Inr cs \<longleftrightarrow>
     (\<exists>cs'. cs = acc @ cs' \<and>
        map (\<lambda>l. parse_line l root) (filter (\<lambda>l. \<not> EMPTY_LINE_fullmatch l) lines)
          = map Inr cs')"
proof (induction lines arbitrary: acc)
  case Nil
  then show ?case by auto
next
  case (Cons l lines)
  show ?case
  proof (cases "EMPTY_LINE_fullmatch l")
    case True
    then show ?thesis using Cons.IH by simp
  next
    case False
    show ?thesis
    proof (cases "parse_line l root")
      case (Inl e)
      then show ?thesis using False by auto
    next
      case (Inr c)
      then show ?thesis using False Cons.IH[of "acc @ [c]"]
        by (auto simp: Cons_eq_map_conv)
    qed
  qed
qed

lemma candidates_loop_isl:
  "isl (candidates_loop root lines acc) \<longleftrightarrow>
     (\<exists>l \<in> set lines. \<not> EMPTY_LINE_fullmatch l \<and> isl (parse_line l root))"
  by (induction lines arbitrary: acc) (auto split: sum.splits)

lemma gather_candidates_lines:
  assumes "root \<noteq> []"
    and "run_command os [S ''git'', S ''status'', S ''--porcelain'', S ''-uall''] root = Inr lines"
  shows "gather_candidates os (Some root) = candidates_loop root lines []"
  using assms by (simp add: gather_candidates_def)

text \<open>
  Claim C1.  A line whose first two characters are both keys of the status table parses,
  and the candidate's staged flag is true exactly when the index code (the first
  character) is neither a space nor a question mark, its tree flag exactly when the tree
  code (the second character) is neither.  The code reads the flags off the display
  symbols; the table sends the space and the question mark to themselves and no other
  code to either.
\<close>

theorem parse_line_flags:
  assumes "2 \<le> length line"
    and "line ! 0 \<in> dom STATUS_MAP" and "line ! 1 \<in> dom STATUS_MAP"
  shows "\<exists>c. parse_line line root = Inr c
            \<and> source__staged c
                = (line ! 0 \<noteq> of_char CHR '' '' \<and> line ! 0 \<noteq> of_char CHR ''?'')
            \<and> source__tree c
                = (line ! 1 \<noteq> of_char CHR '' '' \<and> line ! 1 \<noteq> of_char CHR ''?'')"
proof -
  from assms obtain s0 d0 s1 d1 where
    m0: "STATUS_MAP (line ! 0) = Some (s0, d0)" and m1: "STATUS_MAP (line ! 1) = Some (s1, d1)"
    by fastforce
  from assms(1) m0 m1
  have "\<exists>c. parse_line line root = Inr c
          \<and> source__staged c = (s0 \<notin> set [S '' '', S ''?''])
          \<and> source__tree c = (s1 \<notin> set [S '' '', S ''?''])"
    by (auto simp: parse_line_def getitem_def dict_get_def Let_def)
  with STATUS_MAP_symbol[OF m0] STATUS_MAP_symbol[OF m1] show ?thesis
    by auto
qed

theorem parse_line_flags_witness:
  "2 \<le> length (S ''A? f'') \<and> S ''A? f'' ! 0 \<in> dom STATUS_MAP \<and> S ''A? f'' ! 1 \<in> dom STATUS_MAP
   \<and> (\<exists>c. parse_line (S ''A? f'') (S ''/r'') = Inr c \<and> source__staged c \<and> \<not> source__tree c)"
proof -
  have h1: "2 \<le> length (S ''A? f'')"
    by (simp add: S_def)
  have h2: "S ''A? f'' ! 0 \<in> dom STATUS_MAP"
    by (simp add: S_def STATUS_MAP_def)
  have h3: "S ''A? f'' ! 1 \<in> dom STATUS_MAP"
    by (simp add: S_def STATUS_MAP_def)
  show ?thesis
    using h1 h2 h3 parse_line_flags[OF h1 h2 h3, of "S ''/r''"] by (simp add: S_def)
qed

text \<open>
  Claim C5, as the code has it.  A non-blank line fails to parse exactly when it has
  fewer than two characters (\<open>IndexError\<close>, or \<open>KeyError\<close> when its only character is
  not in the table) or when one of its first two characters is not a key of the status
  table (\<open>KeyError\<close>); and the listing fails exactly when one of its non-blank lines
  fails to parse: no line is dropped.  The third character and the length beyond two are
  not looked at.
\<close>

theorem parse_error_fails_listing:
  assumes "root \<noteq> []"
    and "run_command os [S ''git'', S ''status'', S ''--porcelain'', S ''-uall''] root = Inr lines"
  shows "(isl (parse_line line root) \<longleftrightarrow>
            length line < 2 \<or> line ! 0 \<notin> dom STATUS_MAP \<or> line ! 1 \<notin> dom STATUS_MAP)
       \<and> (isl (gather_candidates os (Some root)) \<longleftrightarrow>
            (\<exists>l \<in> set lines. \<not> EMPTY_LINE_fullmatch l \<and> isl (parse_line l root)))"
  using gather_candidates_lines[OF assms]
  by (auto simp: parse_line_isl candidates_loop_isl)

theorem parse_error_fails_listing_witness:
  "isl (parse_line (S ''MX f'') (S ''/r''))
   \<and> isl (gather_candidates (\<lambda>argv cwd. Exited 0 (Some (S '' M a'' @ [10] @ S ''MX f'' @ [10])))
            (Some (S ''/r'')))"
proof -
  let ?os = "\<lambda>argv cwd. Exited 0 (Some (S '' M a'' @ [10] @ S ''MX f'' @ [10]))"
  have h1: "S ''/r'' \<noteq> []"
    by (simp add: S_def)
  have h2: "run_command ?os [S ''git'', S ''status'', S ''--porcelain'', S ''-uall''] (S ''/r'')
              = Inr [S '' M a'', S ''MX f'', []]"
    by (simp add: run_command_def subprocess_run_def S_def)
  have h3: "(S ''MX f'') ! 1 \<notin> dom STATUS_MAP"
    by (simp add: S_def STATUS_MAP_def dom_def)
  have h4: "\<not> EMPTY_LINE_fullmatch (S ''MX f'')"
    by (simp add: S_def EMPTY_LINE_fullmatch_def isspace_def)
  show ?thesis
    using parse_error_fails_listing[OF h1 h2, of "S ''MX f''"] h3 h4 by simp
qed

text \<open>
  Claim C5 as it is written fails: the two-character line \<open>MM\<close> is shorter than three
  characters and not blank, and it parses.  The slice \<open>line[3:]\<close> of a short line is
  the empty string, so the listing succeeds with a candidate whose path is the root
  followed by a slash.
\<close>

theorem short_line_parses:
  "length (S ''MM'') < 3 \<and> \<not> EMPTY_LINE_fullmatch (S ''MM'')
   \<and> gather_candidates (\<lambda>argv cwd. Exited 0 (Some (S ''MM''))) (Some (S ''/r''))
       = Inr [\<lparr> word = S ''~~ modified                  '',
                action__path = S ''/r/'', source__root = S ''/r'',
                source__staged = True, source__tree = True \<rparr>]"
  by code_simp

text \<open>
  Claim C8.  Listing a command output gives the same result as listing that output with
  its blank lines (empty, or white space only) taken out, wherever they stood: the same
  candidates in the same order, or the same error.
\<close>

theorem blank_lines_ignored:
  assumes "run_command os [S ''git'', S ''status'', S ''--porcelain'', S ''-uall''] root
             = Inr lines"
    and "run_command os' [S ''git'', S ''status'', S ''--porcelain'', S ''-uall''] root
             = Inr (filter (\<lambda>l. \<not> EMPTY_LINE_fullmatch l) lines)"
  shows "gather_candidates os (Some root) = gather_candidates os' (Some root)"
proof (cases "root = []")
  case True
  then show ?thesis by (simp add: gather_candidates_def)
next
  case False
  then show ?thesis
    using gather_candidates_lines[OF False assms(1)] gather_candidates_lines[OF False assms(2)]
      candidates_loop_filter[of root lines "[]"]
    by simp
qed

theorem blank_lines_ignored_witness:
  "gather_candidates (\<lambda>argv cwd. Exited 0 (Some ([10] @ S ''?? a'' @ [10] @ S ''  '' @ [10] @ S ''M  b'')))
     (Some (S ''/r''))
   = gather_candidates (\<lambda>argv cwd. Exited 0 (Some (S ''?? a'' @ [10] @ S ''M  b''))) (Some (S ''/r''))"
proof -
  let ?os = "\<lambda>argv cwd. Exited 0 (Some ([10] @ S ''?? a'' @ [10] @ S ''  '' @ [10] @ S ''M  b''))"
  let ?os' = "\<lambda>argv cwd. Exited 0 (Some (S ''?? a'' @ [10] @ S ''M  b''))"
  have h1: "run_command ?os [S ''git'', S ''status'', S ''--porcelain'', S ''-uall''] (S ''/r'')
              = Inr [[], S ''?? a'', S ''  '', S ''M  b'']"
    by (simp add: run_command_def subprocess_run_def S_def)
  have h2: "run_command ?os' [S ''git'', S ''status'', S ''--porcelain'', S ''-uall''] (S ''/r'')
              = Inr (filter (\<lambda>l. \<not> EMPTY_LINE_fullmatch l) [[], S ''?? a'', S ''  '', S ''M  b''])"
    by (simp add: run_command_def subprocess_run_def S_def EMPTY_LINE_fullmatch_def isspace_def)
  show ?thesis
    using blank_lines_ignored[OF h1 h2] .
qed

text \<open>
  Claim C10.  When the command output is the sequence \<open>lines\<close>, the listing returns a
  candidate list exactly when every non-blank line parses, and the list is then the
  parsed non-blank lines, one candidate for each, in the order of the lines: nothing is
  reordered, merged or left out.
\<close>

theorem candidates_in_line_order:
  assumes "root \<noteq> []"
    and "run_command os [S ''git'', S ''status'', S ''--porcelain'', S ''-uall''] root = Inr lines"
  shows "gather_candidates os (Some root) = Inr cs \<longleftrightarrow>
           map (\<lambda>l. parse_line l root) (filter (\<lambda>l. \<not> EMPTY_LINE_fullmatch l) lines)
             = map Inr cs"
  using gather_candidates_lines[OF assms] candidates_loop_Inr[of root lines "[]" cs]
  by simp

theorem candidates_in_line_order_witness:
  "\<exists>c1 c2. parse_line (S ''?? b'') (S ''/r'') = Inr c1 \<and> parse_line (S ''M  a'') (S ''/r'') = Inr c2
     \<and> gather_candidates (\<lambda>argv cwd. Exited 0 (Some (S ''?? b'' @ [10] @ S ''M  a'' @ [10])))
         (Some (S ''/r'')) = Inr [c1, c2]"
proof -
  let ?os = "\<lambda>argv cwd. Exited 0 (Some (S ''?? b'' @ [10] @ S ''M  a'' @ [10]))"
  have h1: "S ''/r'' \<noteq> []"
    by (simp add: S_def)
  have h2: "run_command ?os [S ''git'', S ''status'', S ''--porcelain'', S ''-uall''] (S ''/r'')
              = Inr [S ''?? b'', S ''M  a'', []]"
    by (simp add: run_command_def subprocess_run_def S_def)
  have b: "EMPTY_LINE_fullmatch []" "\<not> EMPTY_LINE_fullmatch (S ''?? b'')"
    "\<not> EMPTY_LINE_fullmatch (S ''M  a'')"
    by (simp_all add: EMPTY_LINE_fullmatch_def isspace_def S_def)
  obtain c1 where c1: "parse_line (S ''?? b'') (S ''/r'') = Inr c1"
    using parse_line_isl[of "S ''?? b''" "S ''/r''"]
    by (cases "parse_line (S ''?? b'') (S ''/r'')") (simp_all add: S_def STATUS_MAP_def)
  obtain c2 where c2: "parse_line (S ''M  a'') (S ''/r'') = Inr c2"
    using parse_line_isl[of "S ''M  a''" "S ''/r''"]
    by (cases "parse_line (S ''M  a'') (S ''/r'')") (simp_all add: S_def STATUS_MAP_def)
  have "gather_candidates ?os (Some (S ''/r'')) = Inr [c1, c2]"
    using candidates_in_line_order[OF h1 h2, of "[c1, c2]"] b c1 c2 by simp
  with c1 c2 show ?thesis by blast
qed

section \<open>Properties of the command runner\<close>

text \<open>
  Claim C3.  The claim does not hold of the code.  \<open>run_command\<close> catches
  \<open>CalledProcessError\<close> only, which \<open>subprocess.run\<close> raises only under \<open>check=True\<close>,
  and the call does not pass it.  So a \<open>git\<close> that exits with status 128 has its
  error message returned as output lines, and a program that cannot be started raises
  \<open>OSError\<close> out of \<open>run_command\<close>.
\<close>

theorem run_command_failure_not_empty:
  "run_command (\<lambda>argv cwd. Exited 128 (Some (S ''fatal: not a git repository'' @ [10])))
      [S ''git'', S ''status'', S ''--porcelain'', S ''-uall''] (S ''/tmp'')
     = Inr [S ''fatal: not a git repository'', []]
   \<and> run_command (\<lambda>argv cwd. SpawnFailed)
      [S ''git'', S ''status'', S ''--porcelain'', S ''-uall''] (S ''/tmp'')
     = Inl OSError"
  by (simp add: run_command_def subprocess_run_def S_def)

section \<open>Properties of the root lookup\<close>

lemma rev_dropWhile_take:
  "rev (dropWhile P (rev s)) = take (length s - length (takeWhile P (rev s))) s"
proof -
  have "dropWhile P (rev s) = drop (length (takeWhile P (rev s))) (rev s)"
    by (simp add: dropWhile_eq_drop)
  then show ?thesis by (simp add: rev_drop)
qed

lemma take_rfind:
  "take (nat (rfind p c + 1)) p = rev (dropWhile (\<lambda>x. x \<noteq> c) (rev p))"
proof (cases "c \<in> set p")
  case True
  have "length (takeWhile (\<lambda>x. x \<noteq> c) (rev p)) \<le> length p"
    using length_takeWhile_le[of "\<lambda>x. x \<noteq> c" "rev p"] by simp
  then have "nat (rfind p c + 1) = length p - length (takeWhile (\<lambda>x. x \<noteq> c) (rev p))"
    using True by (simp add: rfind_def)
  then show ?thesis by (simp add: rev_dropWhile_take)
next
  case False
  then have "dropWhile (\<lambda>x. x \<noteq> c) (rev p) = []" by auto
  with False show ?thesis by (simp add: rfind_def)
qed

lemma rstrip_take: "rstrip s c = take (length (rstrip s c)) s"
  unfolding rstrip_def
  by (metis rev_dropWhile_take length_rev append_take_drop_id append_eq_conv_conj)

lemma rstrip_shorter:
  assumes "s \<noteq> []" and "last s = c"
  shows "length (rstrip s c) < length s"
proof -
  from assms obtain t where t: "rev s = c # t"
    by (cases "rev s") (auto simp: last_rev[symmetric] hd_rev)
  then have "length (dropWhile (\<lambda>x. x = c) (rev s)) \<le> length t"
    by (simp add: length_dropWhile_le)
  moreover have "length s = Suc (length t)"
    using t by (metis length_Cons length_rev)
  ultimately show ?thesis by (simp add: rstrip_def)
qed

lemma take_take_length: "xs = take n ys \<Longrightarrow> zs = take m xs \<Longrightarrow> zs = take (length zs) ys"
  by (simp add: min_def)

lemma take_length_le: "xs = take n ys \<Longrightarrow> length xs \<le> length ys"
  by simp

lemma take_length_eq: "xs = take n ys \<Longrightarrow> length xs = length ys \<Longrightarrow> xs = ys"
  by simp

text \<open>The part of a path up to its last slash, which \<open>dirname\<close> starts from.\<close>

lemma dirname_cases:
  "dirname p =
     (if take (nat (rfind p 47 + 1)) p \<noteq> []
         \<and> take (nat (rfind p 47 + 1)) p
             \<noteq> replicate (length (take (nat (rfind p 47 + 1)) p)) 47
      then rstrip (take (nat (rfind p 47 + 1)) p) 47
      else take (nat (rfind p 47 + 1)) p)"
  by (simp add: dirname_def Let_def)

lemma head_last:
  assumes "take (nat (rfind p 47 + 1)) p \<noteq> []"
  shows "last (take (nat (rfind p 47 + 1)) p) = 47"
proof -
  from assms have ne: "dropWhile (\<lambda>x. x \<noteq> 47) (rev p) \<noteq> []"
    by (simp add: take_rfind)
  then have "hd (dropWhile (\<lambda>x. x \<noteq> 47) (rev p)) = 47"
    using hd_dropWhile[of "\<lambda>x. x \<noteq> 47" "rev p"] by simp
  with ne show ?thesis by (simp add: take_rfind last_rev)
qed

lemma dirname_take: "dirname p = take (length (dirname p)) p"
proof -
  let ?head = "take (nat (rfind p 47 + 1)) p"
  have 1: "?head = take (nat (rfind p 47 + 1)) p" by simp
  show ?thesis
  proof (cases "?head \<noteq> [] \<and> ?head \<noteq> replicate (length ?head) 47")
    case True
    then have "dirname p = rstrip ?head 47"
      by (simp only: dirname_cases simp_thms if_True)
    then have "dirname p = take (length (rstrip ?head 47)) ?head"
      using rstrip_take[of ?head 47] by simp
    from take_take_length[OF 1 this] show ?thesis .
  next
    case False
    then have "dirname p = ?head"
      by (simp only: dirname_cases simp_thms if_False)
    then have "dirname p = take (length p) ?head" by (simp add: min_def)
    from take_take_length[OF 1 this] show ?thesis .
  qed
qed

lemma dirname_fixed:
  assumes "dirname p = p"
  shows "p = replicate (length p) 47"
proof -
  let ?head = "take (nat (rfind p 47 + 1)) p"
  show ?thesis
  proof (cases "?head \<noteq> [] \<and> ?head \<noteq> replicate (length ?head) 47")
    case True
    then have "length (rstrip ?head 47) < length ?head"
      using rstrip_shorter[of ?head 47] head_last[of p] by blast
    moreover have "length ?head \<le> length p" by simp
    moreover from True have "dirname p = rstrip ?head 47"
      by (simp only: dirname_cases simp_thms if_True)
    ultimately show ?thesis using assms by simp
  next
    case False
    then have "dirname p = ?head"
      by (simp only: dirname_cases simp_thms if_False)
    with assms have "?head = p" by simp
    with False show ?thesis by auto
  qed
qed

lemma isabs_iff: "isabs p \<longleftrightarrow> p \<noteq> [] \<and> hd p = 47"
  by (cases p) (auto simp: isabs_def startswith_def S_def)

lemma dirname_isabs:
  assumes "isabs p"
  shows "isabs (dirname p)"
proof -
  let ?head = "take (nat (rfind p 47 + 1)) p"
  from assms obtain t where p: "p = 47 # t" by (cases p) (auto simp: isabs_iff)
  have "47 \<in> set (rev p)" using p by simp
  then have "dropWhile (\<lambda>x. x \<noteq> 47) (rev p) \<noteq> []"
    by simp
  then have ne: "?head \<noteq> []" by (simp only: take_rfind) simp
  then have "nat (rfind p 47 + 1) \<noteq> 0" by auto
  then have hd: "hd ?head = 47"
    using p by (cases "nat (rfind p 47 + 1)") simp_all
  show ?thesis
  proof (cases "?head \<noteq> replicate (length ?head) 47")
    case True
    then obtain x where x: "x \<in> set ?head" "x \<noteq> 47"
      by (metis replicate_eqI)
    then have "dropWhile (\<lambda>x. x = 47) (rev ?head) \<noteq> []"
      by auto
    then have rne: "rstrip ?head 47 \<noteq> []" by (simp add: rstrip_def)
    then have "hd (rstrip ?head 47) = hd ?head"
      using rstrip_take[of ?head 47] by (metis hd_take length_greater_0_conv)
    moreover from True ne have "dirname p = rstrip ?head 47"
      by (simp only: dirname_cases simp_thms if_True)
    ultimately show ?thesis using rne hd by (simp add: isabs_iff)
  next
    case False
    then have "dirname p = ?head"
      by (simp only: dirname_cases simp_thms if_False)
    with ne hd show ?thesis by (simp add: isabs_iff)
  qed
qed

text \<open>
  The walk is not total on all strings.  \<open>dirname\<close> of the empty path is the empty
  path, so from a relative start path in a directory tree without \<open>.git\<close> the loop
  reaches the empty path and stays there.  The only caller passes the normalised working
  directory of the editor, which is absolute.
\<close>

lemma dirname_Nil: "dirname [] = []"
  by (simp add: dirname_def rfind_def)

lemma find_root_relative_loops:
  "find_root \<lparr> ismount = (\<lambda>p. False), isdir = (\<lambda>p. False) \<rparr> [] = None"
proof -
  let ?fs = "\<lparr> ismount = (\<lambda>p. False), isdir = (\<lambda>p. False) \<rparr>"
  have "\<not> (fs = ?fs \<and> path = [])" if h: "find_root fs path = Some y" for fs path y
  proof (rule find_root.raw_induct[where P = "\<lambda>fs path y. \<not> (fs = ?fs \<and> path = [])", OF _ h])
    fix f :: "filesystem \<Rightarrow> str \<Rightarrow> str option option"
      and fs :: filesystem and path :: str and y :: "str option"
    assume IH: "\<And>fs path y. f fs path = Some y \<Longrightarrow> \<not> (fs = ?fs \<and> path = [])"
    assume body: "(if path = S ''/'' \<or> ismount fs path then Some None
      else let p = join path (S ''.git'')
           in if isdir fs p then Some (Some path)
              else f fs (dirname path)) = Some y"
    show "\<not> (fs = ?fs \<and> path = [])"
    proof
      assume a: "fs = ?fs \<and> path = []"
      with body have "f ?fs [] = Some y"
        by (simp add: dirname_Nil S_def)
      from IH[OF this] show False by simp
    qed
  qed
  then show ?thesis by (cases "find_root ?fs []") auto
qed

text \<open>
  Claim C4.  The claim does not hold of the code: the test for the mount point and the
  file system root comes before the test for \<open>.git\<close>, so the walk ends one directory
  early.  A repository whose root is a mount point is not found, neither from the root
  itself nor from a directory below it.
\<close>

theorem find_root_misses_repository_at_mount_point:
  "find_root \<lparr> ismount = (\<lambda>p. p = S ''/mnt/repo''), isdir = (\<lambda>p. p = S ''/mnt/repo/.git'') \<rparr>
      (S ''/mnt/repo'') = Some None
   \<and> find_root \<lparr> ismount = (\<lambda>p. p = S ''/mnt/repo''), isdir = (\<lambda>p. p = S ''/mnt/repo/.git'') \<rparr>
      (S ''/mnt/repo/src'') = Some None"
  by (simp add: find_root.simps S_def join_def dirname_def rfind_def rstrip_def Let_def)

text \<open>
  Claim C6.  From an absolute start path with no \<open>.git\<close> directory in the start
  directory or in any directory that \<open>dirname\<close> reaches from it, the walk returns, and
  returns \<open>None\<close>.  A path with one leading slash ends at \<open>/\<close>, which the code tests
  for; a path with more leading slashes ends at a path made of that many slashes, which
  names the root directory and is a mount point for \<open>os.path.ismount\<close>.
\<close>

theorem find_root_absent:
  assumes "isabs path"
    and "\<forall>n\<ge>2. ismount fs (replicate n 47)"
    and "\<forall>n. \<not> isdir fs (join ((dirname ^^ n) path) (S ''.git''))"
  shows "find_root fs path = Some None"
  using assms
proof (induction "length path" arbitrary: path rule: less_induct)
  case less
  show ?case
  proof (cases "path = S ''/'' \<or> ismount fs path")
    case True
    then show ?thesis by (subst find_root.simps) simp
  next
    case False
    have nogit: "\<not> isdir fs (join path (S ''.git''))"
      using less.prems(3)[rule_format, of 0] by simp
    have ne: "dirname path \<noteq> path"
    proof
      assume "dirname path = path"
      then have r: "path = replicate (length path) 47" by (rule dirname_fixed)
      from less.prems(1) have "length path \<ge> 1" by (cases path) (auto simp: isabs_iff)
      then consider "length path = 1" | "length path \<ge> 2" by linarith
      then show False
      proof cases
        case 1
        with r have "path = S ''/''" by (simp add: S_def)
        with False show False by simp
      next
        case 2
        with less.prems(2) r False show False by metis
      qed
    qed
    have "length (dirname path) \<le> length path"
      using dirname_take[of path] by (rule take_length_le)
    moreover have "length (dirname path) \<noteq> length path"
      using ne take_length_eq[OF dirname_take[of path]] by blast
    ultimately have lt: "length (dirname path) < length path" by simp
    have "\<forall>n. \<not> isdir fs (join ((dirname ^^ n) (dirname path)) (S ''.git''))"
      using less.prems(3) by (metis funpow_swap1 funpow.simps(2) comp_apply)
    from less.hyps[OF lt dirname_isabs[OF less.prems(1)] less.prems(2) this]
    have "find_root fs (dirname path) = Some None" .
    with False nogit show ?thesis by (subst find_root.simps) simp
  qed
qed

theorem find_root_absent_witness:
  "find_root \<lparr> ismount = (\<lambda>p. 2 \<le> length p \<and> set p \<subseteq> {47}), isdir = (\<lambda>p. False) \<rparr>
     (S ''/home/me/notes'') = Some None"
proof -
  let ?fs = "\<lparr> ismount = (\<lambda>p. 2 \<le> length p \<and> set p \<subseteq> {47}), isdir = (\<lambda>p. False) \<rparr>"
  have h1: "isabs (S ''/home/me/notes'')"
    by (simp add: isabs_iff S_def)
  have h2: "\<forall>n\<ge>2. ismount ?fs (replicate n 47)"
    by simp
  have h3: "\<forall>n. \<not> isdir ?fs (join ((dirname ^^ n) (S ''/home/me/notes'')) (S ''.git''))"
    by simp
  show ?thesis
    using find_root_absent[OF h1 h2 h3] .
qed

section \<open>Properties of the actions\<close>

lemma relpath_nonempty_path:
  "path \<noteq> [] \<Longrightarrow> \<exists>rel. relpath cwd path start = Inr rel"
  by (simp add: relpath_def Let_def)

lemma split_no_sep: "x \<in> set (split s c) \<Longrightarrow> c \<notin> set x"
  by (induction s c arbitrary: x rule: split.induct) (auto split: if_splits list.splits)

lemma join_hd:
  assumes "a \<noteq> []" and "hd a \<noteq> 47" and "b \<noteq> []" and "hd b \<noteq> 47"
  shows "join a b \<noteq> [] \<and> hd (join a b) \<noteq> 47"
  using assms by (auto simp: join_def)

lemma foldl_join_hd:
  assumes "a \<noteq> []" and "hd a \<noteq> 47" and "\<forall>b \<in> set bs. b \<noteq> [] \<and> hd b \<noteq> 47"
  shows "foldl join a bs \<noteq> [] \<and> hd (foldl join a bs) \<noteq> 47"
  using assms
proof (induction bs arbitrary: a)
  case Nil
  then show ?case by simp
next
  case (Cons b bs)
  from Cons.prems have "join a b \<noteq> [] \<and> hd (join a b) \<noteq> 47"
    by (intro join_hd) auto
  with Cons.IH[of "join a b"] Cons.prems(3) show ?case by simp
qed

lemma components_relative:
  assumes "x \<in> set (filter (\<lambda>x. x \<noteq> []) (split s 47))"
  shows "x \<noteq> [] \<and> hd x \<noteq> 47"
proof -
  from assms have "x \<noteq> []" and "47 \<notin> set x"
    using split_no_sep[of x s 47] by auto
  then show ?thesis by (cases x) auto
qed

lemma relpath_relative:
  assumes "relpath cwd path start = Inr rel"
  shows "rel \<noteq> [] \<and> hd rel \<noteq> 47"
proof -
  define start_list where "start_list = filter (\<lambda>x. x \<noteq> []) (split (abspath cwd start) 47)"
  define path_list where "path_list = filter (\<lambda>x. x \<noteq> []) (split (abspath cwd path) 47)"
  define i where "i = length (commonprefix start_list path_list)"
  define rel_list where
    "rel_list = replicate (length start_list - i) (S ''..'') @ drop i path_list"
  from assms have r: "rel = (if rel_list = [] then S ''.'' else join_all rel_list)"
    by (auto simp: relpath_def Let_def start_list_def path_list_def i_def rel_list_def
             split: if_splits)
  have el: "\<forall>x \<in> set rel_list. x \<noteq> [] \<and> hd x \<noteq> 47"
  proof
    fix x assume "x \<in> set rel_list"
    then consider "x = S ''..''" | "x \<in> set path_list"
      by (auto simp: rel_list_def dest: in_set_dropD)
    then show "x \<noteq> [] \<and> hd x \<noteq> 47"
    proof cases
      case 1
      then show ?thesis by (simp add: S_def)
    next
      case 2
      then show ?thesis unfolding path_list_def by (rule components_relative)
    qed
  qed
  show ?thesis
  proof (cases rel_list)
    case Nil
    with r show ?thesis by (simp add: S_def)
  next
    case (Cons a bs)
    with el have "foldl join a bs \<noteq> [] \<and> hd (foldl join a bs) \<noteq> 47"
      by (intro foldl_join_hd) auto
    with r Cons show ?thesis by (simp add: join_all_def)
  qed
qed

lemma relpath_not_isabs: "relpath cwd path start = Inr rel \<Longrightarrow> \<not> isabs rel"
  using relpath_relative[of cwd path start rel]
  by (cases rel) (auto simp: isabs_def startswith_def S_def)

lemma shlex_read_word:
  assumes "shell_plain w"
  shows "shlex_read 97 es q tok (w @ rest) = shlex_read 97 es q (tok @ w) rest"
  using assms
proof (induction w arbitrary: tok)
  case Nil
  then show ?case by simp
next
  case (Cons c w)
  then have c: "c \<notin> set whitespace" "c \<notin> set quotes" "c \<notin> set escape" and w: "shell_plain w"
    by (simp_all add: shell_plain_def)
  have "shlex_read 97 es q tok ((c # w) @ rest) = shlex_read 97 es q (tok @ [c]) (w @ rest)"
    using c by (simp add: quotes_def escape_def)
  with Cons.IH[OF w, of "tok @ [c]"] show ?case by simp
qed

lemma shlex_read_plain:
  assumes "shell_plain w" and "w \<noteq> []"
  shows "shlex_read 32 32 False [] w = Inr [w]"
proof -
  from assms obtain c v where w: "w = c # v" by (cases w) auto
  with assms(1) have c: "c \<notin> set whitespace" "c \<notin> set quotes" "c \<notin> set escape"
    and v: "shell_plain v"
    by (simp_all add: shell_plain_def)
  have "shlex_read 32 32 False [] (c # v) = shlex_read 97 32 False [c] (v @ [])"
    using c by simp
  also have "\<dots> = shlex_read 97 32 False ([c] @ v) []"
    using v by (rule shlex_read_word)
  also have "\<dots> = Inr [c # v]"
    by (simp add: quotes_def escape_def)
  finally show ?thesis using w by simp
qed

lemma shlex_split_reset:
  assumes "shell_plain rel" and "rel \<noteq> []"
  shows "shlex_split (S ''git reset HEAD -- '' @ rel)
           = Inr [S ''git'', S ''reset'', S ''HEAD'', S ''--'', rel]"
  using shlex_read_plain[OF assms]
  by (simp add: shlex_split_def S_def whitespace_def quotes_def escape_def emit_def)

lemma shlex_split_checkout:
  assumes "shell_plain rel" and "rel \<noteq> []"
  shows "shlex_split (S ''git checkout -- '' @ rel)
           = Inr [S ''git'', S ''checkout'', S ''--'', rel]"
  using shlex_read_plain[OF assms]
  by (simp add: shlex_split_def S_def whitespace_def quotes_def escape_def emit_def)

lemma relpath_args_Inr:
  "relpath_args h root targets args = Inr res \<longleftrightarrow>
     (\<exists>rels. res = args @ rels \<and>
        map (\<lambda>t. relpath (getcwd h) (action__path t) root) targets = map Inr rels)"
proof (induction targets arbitrary: args)
  case Nil
  then show ?case by auto
next
  case (Cons t targets)
  show ?case
  proof (cases "relpath (getcwd h) (action__path t) root")
    case (Inl e)
    then show ?thesis by auto
  next
    case (Inr p)
    then show ?thesis using Cons.IH[of "args @ [p]"]
      by (auto simp: Cons_eq_map_conv)
  qed
qed

lemma relpath_map_Inr:
  assumes "\<forall>t \<in> set ts. action__path t \<noteq> []"
  shows "\<exists>rels. map (\<lambda>t. relpath cwd (action__path t) root) ts = map Inr rels"
  using assms
proof (induction ts)
  case Nil
  then show ?case by simp
next
  case (Cons t ts)
  then obtain rels where "map (\<lambda>t. relpath cwd (action__path t) root) ts = map Inr rels"
    by auto
  moreover from Cons.prems obtain rel where "relpath cwd (action__path t) root = Inr rel"
    using relpath_nonempty_path[of "action__path t" cwd root] by auto
  ultimately have "map (\<lambda>t. relpath cwd (action__path t) root) (t # ts) = map Inr (rel # rels)"
    by simp
  then show ?case by blast
qed

text \<open>
  \<open>action_reset\<close> treats its targets one after the other with \<open>reset_target\<close>, in
  the directory of the current buffer, and stops at the first exception.
\<close>

lemma action_reset_Cons:
  "action_reset k h (t # ts) tr =
     (case reset_target k h (normpath (expand_dir h)) t tr of
        (tr', Some e) \<Rightarrow> (tr', Some e)
      | (tr', None) \<Rightarrow> action_reset k h ts tr')"
  by (simp add: action_reset_def Let_def split: prod.splits option.splits)

text \<open>
  Claim C2.  For a target whose root-relative path is \<open>path\<close>, what the reset action
  does is fixed by the two flags as the table of the specification says: both set, the
  user is asked and the answer \<open>r\<close> runs the reset, \<open>c\<close> the checkout and anything
  else nothing; staged only, \<open>git reset HEAD -- path\<close> is split into words and run
  in the root; modified in the tree only, the same with \<open>git checkout -- path\<close>;
  neither, the file is removed in the way chosen at initialisation.  In every case
  \<open>checktime\<close> follows unless something was raised.  The code tests the tree flag
  before the staged flag; the equation holds for all four values of the flags, so there
  is no fifth branch.
\<close>

theorem reset_dispatch:
  assumes "relpath (getcwd h) (action__path t) (source__root t) = Inr path"
  shows "reset_target k h cwd t tr =
     checktime
       (case spec_reset_choice (source__staged t) (source__tree t) of
          AskUser \<Rightarrow>
            (let asked = tr @ [Input (S ''Select action reset or checkout [r/c]'') []] in
             if user_input h asked = S ''r''
             then shlex_run h (S ''git reset HEAD -- '' @ path) (source__root t) asked
             else if user_input h asked = S ''c''
             then shlex_run h (S ''git checkout -- '' @ path) (source__root t) asked
             else (asked, None))
        | Reset \<Rightarrow> shlex_run h (S ''git reset HEAD -- '' @ path) (source__root t) tr
        | Checkout \<Rightarrow> shlex_run h (S ''git checkout -- '' @ path) (source__root t) tr
        | Delete \<Rightarrow>
            (if remove k = S ''rm'' then
               (case relpath (getcwd h) (action__path t) cwd of
                  Inl e \<Rightarrow> (tr, Some e)
                | Inr p \<Rightarrow> (tr @ [VimCommand (S ''Rm '' @ p)], None))
             else if remove k = S ''rmtrash'' then
               run h [S ''rmtrash'', action__path t] (source__root t) tr
             else (tr @ [VimCall (S ''delete'') [action__path t]], None)))"
proof -
  have rc: "S ''r'' \<noteq> S ''c''" by (simp add: S_def)
  show ?thesis
    using assms rc
    by (cases "source__staged t"; cases "source__tree t")
       (auto simp: reset_target_def spec_reset_choice_def Let_def)
qed

theorem reset_dispatch_witness:
  "reset_target \<lparr> remove = S ''delete'' \<rparr>
     \<lparr> user_input = (\<lambda>tr. []), os_run = (\<lambda>tr argv cwd. Exited 0 (Some [])),
       getcwd = S ''/r'', expand_dir = S ''/r'' \<rparr>
     (S ''/r'')
     \<lparr> word = S ''~  modified                  a.txt'', action__path = S ''/r/a.txt'',
       source__root = S ''/r'', source__staged = True, source__tree = False \<rparr>
     []
   = ([Run [S ''git'', S ''reset'', S ''HEAD'', S ''--'', S ''a.txt''] (S ''/r''),
       VimCommand (S ''checktime'')], None)"
proof -
  let ?h = "\<lparr> user_input = (\<lambda>tr. []), os_run = (\<lambda>tr argv cwd. Exited 0 (Some [])),
              getcwd = S ''/r'', expand_dir = S ''/r'' \<rparr>"
  let ?t = "\<lparr> word = S ''~  modified                  a.txt'', action__path = S ''/r/a.txt'',
              source__root = S ''/r'', source__staged = True, source__tree = False \<rparr>"
  have h1: "relpath (getcwd ?h) (action__path ?t) (source__root ?t) = Inr (S ''a.txt'')"
    by code_simp
  have "reset_target \<lparr> remove = S ''delete'' \<rparr> ?h (S ''/r'') ?t []
          = checktime (shlex_run ?h (S ''git reset HEAD -- '' @ S ''a.txt'') (S ''/r'') [])"
    using reset_dispatch[OF h1, of "\<lparr> remove = S ''delete'' \<rparr>" "S ''/r''" "[]"]
    by (simp add: spec_reset_choice_def)
  also have "\<dots> = ([Run [S ''git'', S ''reset'', S ''HEAD'', S ''--'', S ''a.txt''] (S ''/r''),
                     VimCommand (S ''checktime'')], None)"
    by code_simp
  finally show ?thesis .
qed

text \<open>
  Claim C7.  For a target that is both staged and modified in the tree (and has a
  path), an answer to the prompt other than \<open>r\<close> and \<open>c\<close> leaves the target alone:
  the only effects are the prompt itself and the \<open>checktime\<close> command that ends every
  round of the loop.  No subprocess is started, no file is removed, nothing is raised.
\<close>

theorem reset_prompt_declined:
  assumes "source__staged t" and "source__tree t" and "action__path t \<noteq> []"
    and "user_input h (tr @ [Input (S ''Select action reset or checkout [r/c]'') []]) \<noteq> S ''r''"
    and "user_input h (tr @ [Input (S ''Select action reset or checkout [r/c]'') []]) \<noteq> S ''c''"
  shows "reset_target k h cwd t tr
           = (tr @ [Input (S ''Select action reset or checkout [r/c]'') [],
                    VimCommand (S ''checktime'')], None)"
proof -
  from assms(3) obtain rel where "relpath (getcwd h) (action__path t) (source__root t) = Inr rel"
    using relpath_nonempty_path by blast
  with assms show ?thesis
    by (simp add: reset_target_def Let_def checktime_def)
qed

theorem reset_prompt_declined_witness:
  "reset_target \<lparr> remove = S ''delete'' \<rparr>
     \<lparr> user_input = (\<lambda>tr. S ''n''), os_run = (\<lambda>tr argv cwd. Exited 0 (Some [])),
       getcwd = S ''/r'', expand_dir = S ''/r'' \<rparr>
     (S ''/r'')
     \<lparr> word = S ''~~ modified                  a.txt'', action__path = S ''/r/a.txt'',
       source__root = S ''/r'', source__staged = True, source__tree = True \<rparr>
     []
   = ([Input (S ''Select action reset or checkout [r/c]'') [], VimCommand (S ''checktime'')],
      None)"
proof -
  let ?h = "\<lparr> user_input = (\<lambda>tr. S ''n''), os_run = (\<lambda>tr argv cwd. Exited 0 (Some [])),
              getcwd = S ''/r'', expand_dir = S ''/r'' \<rparr>"
  let ?t = "\<lparr> word = S ''~~ modified                  a.txt'', action__path = S ''/r/a.txt'',
              source__root = S ''/r'', source__staged = True, source__tree = True \<rparr>"
  have h1: "source__staged ?t" and h2: "source__tree ?t"
    by simp_all
  have h3: "action__path ?t \<noteq> []"
    by (simp add: S_def)
  have h4: "user_input ?h ([] @ [Input (S ''Select action reset or checkout [r/c]'') []]) \<noteq> S ''r''"
    by (simp add: S_def)
  have h5: "user_input ?h ([] @ [Input (S ''Select action reset or checkout [r/c]'') []]) \<noteq> S ''c''"
    by (simp add: S_def)
  show ?thesis
    using reset_prompt_declined[OF h1 h2 h3 h4 h5, of "\<lparr> remove = S ''delete'' \<rparr>" "S ''/r''"]
    by simp
qed

text \<open>
  Claim C9, as the code has it.  For targets with a path: the stage action runs
  \<open>git add\<close> followed by each target's path relative to the root of the first target,
  in order; the patch action puts the same relative paths, joined by spaces, in the
  editor command \<open>terminal git add ... --patch\<close>; the reset action, for a target with
  one flag set, splits \<open>git reset HEAD -- \<close> or \<open>git checkout -- \<close> followed by the
  target's path relative to its own root into words and runs them, and the words are
  the command and the relative path itself whenever that path has no white space, quote
  or backslash.  A relative path is never absolute.
\<close>

theorem git_path_arguments:
  assumes "targets \<noteq> []" and "\<forall>t \<in> set targets. action__path t \<noteq> []"
  shows "(\<exists>rels.
            map (\<lambda>t. relpath (getcwd h) (action__path t) (source__root (hd targets))) targets
              = map Inr rels
          \<and> (\<forall>r \<in> set rels. \<not> isabs r)
          \<and> action_add h targets tr
              = run h ([S ''git'', S ''add''] @ rels) (source__root (hd targets)) tr
          \<and> action_patch h targets tr
              = (tr @ [VimCommand (S ''terminal git add '' @ str_join (S '' '') rels
                                    @ S '' --patch'')], None))
       \<and> (\<forall>t \<in> set targets. \<exists>rel.
            relpath (getcwd h) (action__path t) (source__root t) = Inr rel
          \<and> \<not> isabs rel
          \<and> (source__staged t \<and> \<not> source__tree t \<longrightarrow>
               reset_target k h cwd t tr
                 = checktime (shlex_run h (S ''git reset HEAD -- '' @ rel) (source__root t) tr))
          \<and> (source__tree t \<and> \<not> source__staged t \<longrightarrow>
               reset_target k h cwd t tr
                 = checktime (shlex_run h (S ''git checkout -- '' @ rel) (source__root t) tr))
          \<and> (shell_plain rel \<longrightarrow>
               shlex_run h (S ''git reset HEAD -- '' @ rel) (source__root t) tr
                 = run h [S ''git'', S ''reset'', S ''HEAD'', S ''--'', rel] (source__root t) tr
             \<and> shlex_run h (S ''git checkout -- '' @ rel) (source__root t) tr
                 = run h [S ''git'', S ''checkout'', S ''--'', rel] (source__root t) tr))"
proof (rule conjI)
  let ?root = "source__root (hd targets)"
  from assms(1) have g: "getitem targets 0 = Inr (hd targets)"
    by (cases targets) (simp_all add: getitem_def)
  from assms(2)
  have "\<exists>rels. map (\<lambda>t. relpath (getcwd h) (action__path t) ?root) targets = map Inr rels"
    by (rule relpath_map_Inr)
  then obtain rels where
    rels: "map (\<lambda>t. relpath (getcwd h) (action__path t) ?root) targets = map Inr rels" ..
  have "\<forall>x \<in> set (map (\<lambda>t. relpath (getcwd h) (action__path t) ?root) targets).
          \<forall>r. x = Inr r \<longrightarrow> \<not> isabs r"
    by (auto dest: relpath_not_isabs)
  then have rel: "\<forall>r \<in> set rels. \<not> isabs r"
    unfolding rels by auto
  have a1: "relpath_args h ?root targets [S ''git'', S ''add''] = Inr ([S ''git'', S ''add''] @ rels)"
    using rels by (simp add: relpath_args_Inr)
  have a2: "relpath_args h ?root targets [] = Inr rels"
    using rels by (simp add: relpath_args_Inr)
  have add: "action_add h targets tr = run h ([S ''git'', S ''add''] @ rels) ?root tr"
    using g a1 by (simp add: action_add_def)
  have patch: "action_patch h targets tr
                 = (tr @ [VimCommand (S ''terminal git add '' @ str_join (S '' '') rels
                                       @ S '' --patch'')], None)"
    using g a2 by (simp add: action_patch_def)
  from rels rel add patch
  show "\<exists>rels.
            map (\<lambda>t. relpath (getcwd h) (action__path t) ?root) targets = map Inr rels
          \<and> (\<forall>r \<in> set rels. \<not> isabs r)
          \<and> action_add h targets tr = run h ([S ''git'', S ''add''] @ rels) ?root tr
          \<and> action_patch h targets tr
              = (tr @ [VimCommand (S ''terminal git add '' @ str_join (S '' '') rels
                                    @ S '' --patch'')], None)"
    by blast
next
  show "\<forall>t \<in> set targets. \<exists>rel.
            relpath (getcwd h) (action__path t) (source__root t) = Inr rel
          \<and> \<not> isabs rel
          \<and> (source__staged t \<and> \<not> source__tree t \<longrightarrow>
               reset_target k h cwd t tr
                 = checktime (shlex_run h (S ''git reset HEAD -- '' @ rel) (source__root t) tr))
          \<and> (source__tree t \<and> \<not> source__staged t \<longrightarrow>
               reset_target k h cwd t tr
                 = checktime (shlex_run h (S ''git checkout -- '' @ rel) (source__root t) tr))
          \<and> (shell_plain rel \<longrightarrow>
               shlex_run h (S ''git reset HEAD -- '' @ rel) (source__root t) tr
                 = run h [S ''git'', S ''reset'', S ''HEAD'', S ''--'', rel] (source__root t) tr
             \<and> shlex_run h (S ''git checkout -- '' @ rel) (source__root t) tr
                 = run h [S ''git'', S ''checkout'', S ''--'', rel] (source__root t) tr)"
  proof
    fix t assume "t \<in> set targets"
    with assms(2) obtain rel where
      rel: "relpath (getcwd h) (action__path t) (source__root t) = Inr rel"
      using relpath_nonempty_path by blast
    have ne: "rel \<noteq> []" using relpath_relative[OF rel] by simp
    have 1: "\<not> isabs rel" using rel by (rule relpath_not_isabs)
    have 2: "source__staged t \<and> \<not> source__tree t \<longrightarrow>
               reset_target k h cwd t tr
                 = checktime (shlex_run h (S ''git reset HEAD -- '' @ rel) (source__root t) tr)"
      using rel by (simp add: reset_target_def Let_def)
    have 3: "source__tree t \<and> \<not> source__staged t \<longrightarrow>
               reset_target k h cwd t tr
                 = checktime (shlex_run h (S ''git checkout -- '' @ rel) (source__root t) tr)"
      using rel by (simp add: reset_target_def Let_def)
    have 4: "shell_plain rel \<longrightarrow>
               shlex_run h (S ''git reset HEAD -- '' @ rel) (source__root t) tr
                 = run h [S ''git'', S ''reset'', S ''HEAD'', S ''--'', rel] (source__root t) tr
             \<and> shlex_run h (S ''git checkout -- '' @ rel) (source__root t) tr
                 = run h [S ''git'', S ''checkout'', S ''--'', rel] (source__root t) tr"
      using ne shlex_split_reset[of rel] shlex_split_checkout[of rel]
      by (simp add: shlex_run_def)
    from rel 1 2 3 4
    show "\<exists>rel.
            relpath (getcwd h) (action__path t) (source__root t) = Inr rel
          \<and> \<not> isabs rel
          \<and> (source__staged t \<and> \<not> source__tree t \<longrightarrow>
               reset_target k h cwd t tr
                 = checktime (shlex_run h (S ''git reset HEAD -- '' @ rel) (source__root t) tr))
          \<and> (source__tree t \<and> \<not> source__staged t \<longrightarrow>
               reset_target k h cwd t tr
                 = checktime (shlex_run h (S ''git checkout -- '' @ rel) (source__root t) tr))
          \<and> (shell_plain rel \<longrightarrow>
               shlex_run h (S ''git reset HEAD -- '' @ rel) (source__root t) tr
                 = run h [S ''git'', S ''reset'', S ''HEAD'', S ''--'', rel] (source__root t) tr
             \<and> shlex_run h (S ''git checkout -- '' @ rel) (source__root t) tr
                 = run h [S ''git'', S ''checkout'', S ''--'', rel] (source__root t) tr)"
      by blast
  qed
qed

theorem git_path_arguments_witness:
  "action_add
     \<lparr> user_input = (\<lambda>tr. []), os_run = (\<lambda>tr argv cwd. Exited 0 (Some [])),
       getcwd = S ''/r'', expand_dir = S ''/r'' \<rparr>
     [\<lparr> word = S '' ~              modified     a.txt'', action__path = S ''/r/a.txt'',
        source__root = S ''/r'', source__staged = False, source__tree = True \<rparr>,
      \<lparr> word = S ''?? untracked                 sub/b'', action__path = S ''/r/sub/b'',
        source__root = S ''/r'', source__staged = False, source__tree = False \<rparr>]
     []
   = ([Run [S ''git'', S ''add'', S ''a.txt'', S ''sub/b''] (S ''/r'')], None)"
proof -
  let ?h = "\<lparr> user_input = (\<lambda>tr. []), os_run = (\<lambda>tr argv cwd. Exited 0 (Some [])),
              getcwd = S ''/r'', expand_dir = S ''/r'' \<rparr>"
  let ?ts = "[\<lparr> word = S '' ~              modified     a.txt'', action__path = S ''/r/a.txt'',
                 source__root = S ''/r'', source__staged = False, source__tree = True \<rparr>,
               \<lparr> word = S ''?? untracked                 sub/b'', action__path = S ''/r/sub/b'',
                 source__root = S ''/r'', source__staged = False, source__tree = False \<rparr>]"
  have h1: "?ts \<noteq> []"
    by simp
  have h2: "\<forall>t \<in> set ?ts. action__path t \<noteq> []"
    by (simp add: S_def)
  have m: "map (\<lambda>t. relpath (getcwd ?h) (action__path t) (source__root (hd ?ts))) ?ts
             = map Inr [S ''a.txt'', S ''sub/b'']"
    by code_simp
  from git_path_arguments[OF h1 h2, of ?h "[]"] obtain rels where
    r: "map (\<lambda>t. relpath (getcwd ?h) (action__path t) (source__root (hd ?ts))) ?ts = map Inr rels"
    and a: "action_add ?h ?ts [] = run ?h ([S ''git'', S ''add''] @ rels) (source__root (hd ?ts)) []"
    by blast
  from r m have "map Inr rels = (map Inr [S ''a.txt'', S ''sub/b''] :: (error + str) list)"
    by simp
  then have "rels = [S ''a.txt'', S ''sub/b'']"
    by (auto simp: map_eq_Cons_conv)
  with a show ?thesis
    by (simp add: run_def run_command_def subprocess_run_def)
qed

text \<open>
  Claim C9 as it is written fails for the reset action.  The status line of a staged
  rename, \<open>R  old -> new\<close>, gives a candidate whose path relative to the root is
  \<open>old -> new\<close>; the reset action runs \<open>git reset HEAD --\<close> with the three path
  arguments \<open>old\<close>, \<open>->\<close> and \<open>new\<close>, none of which is that relative path.
\<close>

theorem reset_splits_relative_path:
  "parse_line (S ''R  old -> new'') (S ''/r'')
     = Inr \<lparr> word = [8594] @ S ''  renamed                   old -> new'',
             action__path = S ''/r/old -> new'', source__root = S ''/r'',
             source__staged = True, source__tree = False \<rparr>
   \<and> relpath (S ''/r'') (S ''/r/old -> new'') (S ''/r'') = Inr (S ''old -> new'')
   \<and> reset_target \<lparr> remove = S ''delete'' \<rparr>
       \<lparr> user_input = (\<lambda>tr. []), os_run = (\<lambda>tr argv cwd. Exited 0 (Some [])),
         getcwd = S ''/r'', expand_dir = S ''/r'' \<rparr>
       (S ''/r'')
       \<lparr> word = [8594] @ S ''  renamed                   old -> new'',
         action__path = S ''/r/old -> new'', source__root = S ''/r'',
         source__staged = True, source__tree = False \<rparr>
       []
     = ([Run [S ''git'', S ''reset'', S ''HEAD'', S ''--'', S ''old'', S ''->'', S ''new'']
           (S ''/r''),
         VimCommand (S ''checktime'')], None)"
  by code_simp

end
